theory Spec2Isabelle
  imports Main "HOL-Library.Word"
begin

section \<open>Data model of windows/port.cc\<close>

text \<open>
  Pointers are opaque addresses; the null pointer is address 0. A destructor is a
  function pointer, again an address, and 0 is the null function pointer. A TLS index
  (\<open>pthread_key_t\<close>) is a Windows \<open>DWORD\<close>, an unsigned 32-bit integer.
\<close>

type_synonym ptr = nat
type_synonym fnptr = nat
type_synonym DWORD = "32 word"
type_synonym pthread_key_t = DWORD

abbreviation NULL :: nat where
  "NULL \<equiv> 0"

text \<open>
  Constants of the platform headers: the value \<open>TlsAlloc\<close> returns when no index
  is left, and the reasons the loader passes to a TLS callback or to \<open>DllMain\<close>.
\<close>

definition TLS_OUT_OF_INDEXES :: DWORD where
  "TLS_OUT_OF_INDEXES = 0xFFFFFFFF"

definition DLL_PROCESS_DETACH :: DWORD where
  "DLL_PROCESS_DETACH = 0"

definition DLL_PROCESS_ATTACH :: DWORD where
  "DLL_PROCESS_ATTACH = 1"

definition DLL_THREAD_ATTACH :: DWORD where
  "DLL_THREAD_ATTACH = 2"

definition DLL_THREAD_DETACH :: DWORD where
  "DLL_THREAD_DETACH = 3"

text \<open>\<open>struct DestrFnClosure\<close>: the destructor and the key whose value is its argument.\<close>

record DestrFnClosure =
  destr_fn :: fnptr
  key_for_destr_fn_arg :: pthread_key_t

text \<open>
  What the threads code does that can be seen from outside: the stores it makes
  into TLS slots and the destructor calls, in the order they happen.
\<close>

datatype event = TlsSet pthread_key_t ptr | Invoke fnptr ptr

text \<open>
  The state the threads code works on: the static \<open>destr_fn_info\<close>, the TLS slots
  of the thread that is running, the indices the platform can still hand out, and the
  trace of events so far.
\<close>

record tls_state =
  destr_fn_info :: DestrFnClosure
  slots :: "pthread_key_t \<Rightarrow> ptr"
  tls_pool :: "pthread_key_t list"
  trace :: "event list"

text \<open>
  The program's code memory: what the function at an address does when it is called
  as a destructor with an argument. A destructor is application code, so it may read
  and write the slots of its thread. The static \<open>destr_fn_info\<close> is private to
  port.cc and the trace is an observation, so neither is in its reach.
\<close>

type_synonym program = "fnptr \<Rightarrow> ptr \<Rightarrow> (pthread_key_t \<Rightarrow> ptr) \<Rightarrow> (pthread_key_t \<Rightarrow> ptr)"

text \<open>A process that ends through a failed \<open>assert\<close> or a \<open>LOG(FATAL, ...)\<close>.\<close>

datatype fatal = AssertionFailed string | LogFatal string

section \<open>The platform's TLS calls\<close>

text \<open>
  \<open>TlsAlloc\<close> hands out the next free index and zeroes its slot, or returns
  \<open>TLS_OUT_OF_INDEXES\<close> when none is left. \<open>TlsGetValue\<close> and \<open>TlsSetValue\<close>
  fail on \<open>TLS_OUT_OF_INDEXES\<close>: the read gives 0 and the store does nothing.
\<close>

definition TlsAlloc :: "tls_state \<Rightarrow> pthread_key_t \<times> tls_state" where
  "TlsAlloc s =
     (case tls_pool s of
        [] \<Rightarrow> (TLS_OUT_OF_INDEXES, s)
      | k # ks \<Rightarrow> (k, s\<lparr>slots := (slots s)(k := NULL), tls_pool := ks\<rparr>))"

definition TlsGetValue :: "pthread_key_t \<Rightarrow> tls_state \<Rightarrow> ptr" where
  "TlsGetValue k s = (if k = TLS_OUT_OF_INDEXES then NULL else slots s k)"

definition TlsSetValue :: "pthread_key_t \<Rightarrow> ptr \<Rightarrow> tls_state \<Rightarrow> tls_state" where
  "TlsSetValue k v s =
     (if k = TLS_OUT_OF_INDEXES then s\<lparr>trace := trace s @ [TlsSet k v]\<rparr>
      else s\<lparr>slots := (slots s)(k := v), trace := trace s @ [TlsSet k v]\<rparr>)"

text \<open>The indirect call \<open>( *destr_fn)(ptr)\<close>: the call is recorded, then the callee runs.\<close>

definition call_destr_fn :: "program \<Rightarrow> fnptr \<Rightarrow> ptr \<Rightarrow> tls_state \<Rightarrow> tls_state" where
  "call_destr_fn prog f p s = s\<lparr>slots := prog f p (slots s), trace := trace s @ [Invoke f p]\<rparr>"

section \<open>Threads code\<close>

text \<open>\<open>on_process_term\<close>, lines 128 to 139. It returns 0 on every path.\<close>

definition on_process_term :: "program \<Rightarrow> tls_state \<Rightarrow> int \<times> tls_state" where
  "on_process_term prog s =
     (if destr_fn (destr_fn_info s) \<noteq> NULL then
        (let ptr = TlsGetValue (key_for_destr_fn_arg (destr_fn_info s)) s;
             s1 = TlsSetValue (key_for_destr_fn_arg (destr_fn_info s)) NULL s
         in if ptr \<noteq> NULL
            then (0, call_destr_fn prog (destr_fn (destr_fn_info s1)) ptr s1)
            else (0, s1))
      else (0, s))"

text \<open>\<open>on_tls_callback\<close>, lines 141 to 145; \<open>h\<close> and \<open>pv\<close> are not used.\<close>

definition on_tls_callback :: "program \<Rightarrow> nat \<Rightarrow> DWORD \<Rightarrow> nat \<Rightarrow> tls_state \<Rightarrow> tls_state" where
  "on_tls_callback prog h dwReason pv s =
     (if dwReason = DLL_THREAD_DETACH then snd (on_process_term prog s) else s)"

text \<open>\<open>DllMain\<close>, lines 179 to 185, the entry point of the build without MSVC.\<close>

definition DllMain :: "program \<Rightarrow> nat \<Rightarrow> DWORD \<Rightarrow> nat \<Rightarrow> tls_state \<Rightarrow> bool \<times> tls_state" where
  "DllMain prog h dwReason pv s =
     (if dwReason = DLL_THREAD_DETACH then (True, on_tls_callback prog h dwReason pv s)
      else if dwReason = DLL_PROCESS_DETACH then (True, snd (on_process_term prog s))
      else (True, s))"

text \<open>
  \<open>PthreadKeyCreate\<close>, lines 189 to 201. The index is allocated first; the
  \<open>assert\<close> of line 196 ends the process when a destructor is already registered.
  The assertion is compiled in, as it is wherever \<open>NDEBUG\<close> is not defined.
\<close>

definition PthreadKeyCreate :: "fnptr \<Rightarrow> tls_state \<Rightarrow> fatal + (pthread_key_t \<times> tls_state)" where
  "PthreadKeyCreate fn s =
     (case TlsAlloc s of (key, s1) \<Rightarrow>
        if fn \<noteq> NULL then
          (if destr_fn (destr_fn_info s1) = NULL
           then Inr (key, s1\<lparr>destr_fn_info := \<lparr>destr_fn = fn, key_for_destr_fn_arg = key\<rparr>\<rparr>)
           else Inl (AssertionFailed ''destr_fn_info.destr_fn == NULL''))
        else Inr (key, s1))"

text \<open>A sequence of \<open>PthreadKeyCreate\<close> calls; a fatal call ends the process.\<close>

fun PthreadKeyCreate_calls ::
  "fnptr list \<Rightarrow> tls_state \<Rightarrow> fatal + (pthread_key_t list \<times> tls_state)" where
  "PthreadKeyCreate_calls [] s = Inr ([], s)"
| "PthreadKeyCreate_calls (fn # fns) s =
     (case PthreadKeyCreate fn s of
        Inl e \<Rightarrow> Inl e
      | Inr (k, s1) \<Rightarrow>
          (case PthreadKeyCreate_calls fns s1 of
             Inl e \<Rightarrow> Inl e
           | Inr (ks, s2) \<Rightarrow> Inr (k # ks, s2)))"

text \<open>
  The state at process start: \<open>destr_fn_info\<close> is zero-initialised (line 126), every
  slot is empty, and the platform has the indices \<open>pool\<close> to hand out.
\<close>

definition process_start :: "pthread_key_t list \<Rightarrow> tls_state" where
  "process_start pool =
     \<lparr>destr_fn_info = \<lparr>destr_fn = NULL, key_for_destr_fn_arg = 0\<rparr>,
      slots = (\<lambda>_. NULL), tls_pool = pool, trace = []\<rparr>"

text \<open>The destructor calls of a trace, oldest first, each with its argument.\<close>

fun invocations :: "event list \<Rightarrow> (fnptr \<times> ptr) list" where
  "invocations [] = []"
| "invocations (Invoke f p # es) = (f, p) # invocations es"
| "invocations (TlsSet k v # es) = invocations es"

text \<open>The destructor at \<open>f\<close> never changes slot \<open>k\<close>.\<close>

definition leaves_slot :: "program \<Rightarrow> fnptr \<Rightarrow> pthread_key_t \<Rightarrow> bool" where
  "leaves_slot prog f k = (\<forall>p sl. prog f p sl k = sl k)"

text \<open>
  A destructor that stores its argument back into slot \<open>k\<close>, as an application
  does that wants the object to survive this round of cleanup.
\<close>

definition rearm :: "pthread_key_t \<Rightarrow> program" where
  "rearm k f p sl = sl(k := p)"

text \<open>A destructor that releases its argument and leaves every slot alone.\<close>

definition release_only :: program where
  "release_only f p sl = sl"

text \<open>
  A thread whose slot 5 holds the object at address 7, with the destructor at
  address 1 registered for that slot.
\<close>

definition thread_with_value :: tls_state where
  "thread_with_value =
     \<lparr>destr_fn_info = \<lparr>destr_fn = 1, key_for_destr_fn_arg = 5\<rparr>,
      slots = (\<lambda>_. NULL)(5 := 7), tls_pool = [], trace = []\<rparr>"

text \<open>The same thread before it has stored anything in the slot.\<close>

definition thread_without_value :: tls_state where
  "thread_without_value =
     \<lparr>destr_fn_info = \<lparr>destr_fn = 1, key_for_destr_fn_arg = 5\<rparr>,
      slots = (\<lambda>_. NULL), tls_pool = [], trace = []\<rparr>"

text \<open>
  The two exit notifiers as the platform runs them: \<open>on_tls_callback\<close> with
  \<open>DLL_THREAD_DETACH\<close> when a thread ends, \<open>on_process_term\<close> when the process ends.
\<close>

datatype notifier = ThreadExit | ProcessExit

definition notify :: "notifier \<Rightarrow> program \<Rightarrow> tls_state \<Rightarrow> tls_state" where
  "notify n prog s =
     (case n of
        ThreadExit \<Rightarrow> on_tls_callback prog 0 DLL_THREAD_DETACH 0 s
      | ProcessExit \<Rightarrow> snd (on_process_term prog s))"

text \<open>The events of a run that starts in \<open>s\<close> and ends in \<open>s1\<close>.\<close>

definition new_events :: "tls_state \<Rightarrow> tls_state \<Rightarrow> event list" where
  "new_events s s1 = drop (length (trace s)) (trace s1)"

section \<open>Basic libraries\<close>

text \<open>The two fields of \<open>SYSTEM_INFO\<close> that \<open>getpagesize\<close> reads.\<close>

record SYSTEM_INFO =
  dwPageSize :: DWORD
  dwAllocationGranularity :: DWORD

text \<open>
  \<open>getpagesize\<close>, lines 55 to 64. The function-local static \<open>pagesize\<close> is passed
  in and returned; \<open>system_info\<close> is what \<open>GetSystemInfo\<close> reports when it is asked.
  \<open>std::max\<close> compares the two \<open>DWORD\<close>s unsigned, and the assignment to the
  \<open>int\<close> reads the 32 bits as two's complement.
\<close>

definition getpagesize :: "SYSTEM_INFO \<Rightarrow> int \<Rightarrow> int \<times> int" where
  "getpagesize system_info pagesize =
     (if pagesize = 0 then
        (let pagesize1 = sint (max (dwPageSize system_info) (dwAllocationGranularity system_info))
         in (pagesize1, pagesize1))
      else (pagesize, pagesize))"

text \<open>The results of successive calls, the static carried from each call to the next.\<close>

fun getpagesize_calls :: "SYSTEM_INFO list \<Rightarrow> int \<Rightarrow> int list" where
  "getpagesize_calls [] pagesize = []"
| "getpagesize_calls (si # sis) pagesize =
     (case getpagesize si pagesize of (r, pagesize1) \<Rightarrow> r # getpagesize_calls sis pagesize1)"

text \<open>A reported size that is a power of two and fits into a positive \<open>int\<close>.\<close>

definition power_of_two_size :: "DWORD \<Rightarrow> bool" where
  "power_of_two_size w = (w \<in> set (map (\<lambda>n. 2 ^ n) [0..<31]))"

text \<open>The severities of base/logging.h.\<close>

datatype severity = INFO | WARNING | ERROR | FATAL

text \<open>
  Modelled from the spec: the logging macro \<open>LOG\<close> of base/logging.h, which is not
  among the sources. With severity \<open>FATAL\<close> it writes the diagnostic and terminates
  the process; with any other severity it writes the message and returns. The
  argument and result \<open>err\<close> are the lines written to the error stream.
\<close>

definition LOG :: "severity \<Rightarrow> string \<Rightarrow> string list \<Rightarrow> fatal + string list" where
  "LOG sev msg err = (if sev = FATAL then Inl (LogFatal msg) else Inr (err @ [msg]))"

text \<open>The message of line 67, with its apostrophe and its final newline.\<close>

definition sbrk_message :: string where
  "sbrk_message = ''Windows doesn'' @ [CHR 0x27] @ ''t implement sbrk!'' @ [CHR 0x0A]"

text \<open>\<open>__sbrk\<close>, lines 66 to 69: the \<open>LOG\<close> call, then \<open>return NULL\<close>.\<close>

definition sbrk :: "int \<Rightarrow> string list \<Rightarrow> fatal + (ptr \<times> string list)" where
  "sbrk increment err =
     (case LOG FATAL sbrk_message err of
        Inl e \<Rightarrow> Inl e
      | Inr err1 \<Rightarrow> Inr (NULL, err1))"

section \<open>Files\<close>

text \<open>
  The file system as \<open>DeleteMatchingFiles\<close> sees it: the current directory, the
  files as pairs of directory and name, and the lines logged so far.
\<close>

record filesystem =
  cwd :: string
  files :: "(string \<times> string) list"
  vlog :: "string list"

definition is_sep :: "char \<Rightarrow> bool" where
  "is_sep c = (c = CHR 0x5C \<or> c = CHR ''/'')"

definition has_dir :: "string \<Rightarrow> bool" where
  "has_dir p = (\<exists>c\<in>set p. is_sep c)"

definition base_name :: "string \<Rightarrow> string" where
  "base_name p = rev (takeWhile (\<lambda>c. \<not> is_sep c) (rev p))"

definition dir_name :: "string \<Rightarrow> string" where
  "dir_name p = rev (drop 1 (dropWhile (\<lambda>c. \<not> is_sep c) (rev p)))"

text \<open>
  The platform resolves a path with a directory part in that directory and a bare
  name in the current directory.
\<close>

definition resolve :: "filesystem \<Rightarrow> string \<Rightarrow> string \<times> string" where
  "resolve fs p = (if has_dir p then (dir_name p, base_name p) else (cwd fs, p))"

text \<open>Wildcard matching of a name: \<open>*\<close> stands for any run of characters, \<open>?\<close> for one.\<close>

fun wild :: "string \<Rightarrow> string \<Rightarrow> bool" where
  "wild [] [] = True"
| "wild [] (c # cs) = False"
| "wild (p # ps) [] = (p = CHR ''*'' \<and> wild ps [])"
| "wild (p # ps) (c # cs) =
     (if p = CHR ''*'' then wild ps (c # cs) \<or> wild (p # ps) cs
      else (p = CHR ''?'' \<or> p = c) \<and> wild ps cs)"

text \<open>
  \<open>FindFirstFileA\<close> and \<open>FindNextFileA\<close>: the names, without directory, of the
  entries of the glob's directory that match its pattern. No name at all is the
  \<open>INVALID_HANDLE_VALUE\<close> of \<open>FindFirstFileA\<close>.
\<close>

definition FindFiles :: "string \<Rightarrow> filesystem \<Rightarrow> string list" where
  "FindFiles full_glob fs =
     map snd (filter (\<lambda>e. fst e = fst (resolve fs full_glob) \<and> wild (snd (resolve fs full_glob)) (snd e))
                     (files fs))"

text \<open>\<open>_unlink\<close>: removes the file the path resolves to, if there is one.\<close>

definition unlink :: "string \<Rightarrow> filesystem \<Rightarrow> filesystem" where
  "unlink fname fs = fs\<lparr>files := filter (\<lambda>e. e \<noteq> resolve fs fname) (files fs)\<rparr>"

text \<open>
  Modelled from the spec: the logging macro \<open>RAW_VLOG\<close> of base/logging.h, which is
  not among the sources. The spec says that each deletion is logged, so the call at
  level 0 writes its line.
\<close>

definition RAW_VLOG :: "nat \<Rightarrow> string \<Rightarrow> filesystem \<Rightarrow> filesystem" where
  "RAW_VLOG lvl msg fs = fs\<lparr>vlog := vlog fs @ [msg]\<rparr>"

text \<open>
  The body of the \<open>do ... while\<close> loop of lines 213 to 221, once for each name
  found. \<open>memcmp\<close> over \<open>prefix_length\<close> bytes compares the first \<open>prefix_length\<close>
  characters of both strings. Strings are shorter than \<open>2 ^ 31\<close> characters, so
  the \<open>int\<close> that holds \<open>strlen(prefix)\<close> holds the length itself.
\<close>

fun delete_found :: "string \<Rightarrow> nat \<Rightarrow> string list \<Rightarrow> filesystem \<Rightarrow> filesystem" where
  "delete_found prefix prefix_length [] fs = fs"
| "delete_found prefix prefix_length (fname # rest) fs =
     delete_found prefix prefix_length rest
       (if length fname \<ge> prefix_length \<and> take prefix_length fname = take prefix_length prefix
        then unlink fname (RAW_VLOG 0 (''Removing old heap profile '' @ fname @ [CHR 0x0A]) fs)
        else fs)"

text \<open>\<open>DeleteMatchingFiles\<close>, lines 208 to 224.\<close>

definition DeleteMatchingFiles :: "string \<Rightarrow> string \<Rightarrow> filesystem \<Rightarrow> filesystem" where
  "DeleteMatchingFiles prefix full_glob fs =
     (case FindFiles full_glob fs of
        [] \<Rightarrow> fs
      | fname # rest \<Rightarrow> delete_found prefix (length prefix) (fname # rest) fs)"

text \<open>
  Old profiles in \<open>C:/tmp\<close>, and a file of the same name in the directory the
  process runs in.
\<close>

definition profiles_elsewhere :: filesystem where
  "profiles_elsewhere =
     \<lparr>cwd = ''C:/work'',
      files = [(''C:/tmp'', ''profile.1''), (''C:/work'', ''profile.1'')],
      vlog = []\<rparr>"

section \<open>What the exit notifiers do\<close>

lemma invocations_append: "invocations (xs @ ys) = invocations xs @ invocations ys"
  by (induction xs rule: invocations.induct) simp_all

lemma trace_on_process_term:
  "trace (snd (on_process_term prog s)) =
     trace s @
       (if destr_fn (destr_fn_info s) = NULL then []
        else if TlsGetValue (key_for_destr_fn_arg (destr_fn_info s)) s = NULL
        then [TlsSet (key_for_destr_fn_arg (destr_fn_info s)) NULL]
        else [TlsSet (key_for_destr_fn_arg (destr_fn_info s)) NULL,
              Invoke (destr_fn (destr_fn_info s))
                (TlsGetValue (key_for_destr_fn_arg (destr_fn_info s)) s)])"
  by (simp add: on_process_term_def TlsSetValue_def call_destr_fn_def Let_def)

lemma destr_fn_info_on_process_term:
  "destr_fn_info (snd (on_process_term prog s)) = destr_fn_info s"
  by (simp add: on_process_term_def TlsSetValue_def call_destr_fn_def Let_def)

lemma slots_on_process_term:
  "slots (snd (on_process_term prog s)) =
     (if destr_fn (destr_fn_info s) = NULL then slots s
      else if TlsGetValue (key_for_destr_fn_arg (destr_fn_info s)) s = NULL then slots s
      else prog (destr_fn (destr_fn_info s))
             (TlsGetValue (key_for_destr_fn_arg (destr_fn_info s)) s)
             ((slots s)(key_for_destr_fn_arg (destr_fn_info s) := NULL)))"
  by (auto simp add: on_process_term_def TlsSetValue_def TlsGetValue_def call_destr_fn_def Let_def)

lemma fst_on_process_term: "fst (on_process_term prog s) = 0"
  by (simp add: on_process_term_def Let_def)

text \<open>Both notifiers run the same code.\<close>

lemma notify_eq: "notify n prog s = snd (on_process_term prog s)"
  by (cases n) (simp_all add: notify_def on_tls_callback_def)

lemma DllMain_notifies:
  "DllMain prog h dwReason pv s =
     (True, if dwReason = DLL_THREAD_DETACH \<or> dwReason = DLL_PROCESS_DETACH
            then snd (on_process_term prog s) else s)"
  by (simp add: DllMain_def on_tls_callback_def)

lemma new_events_append: "trace s1 = trace s @ es \<Longrightarrow> new_events s s1 = es"
  by (simp add: new_events_def)

lemma new_events_trans:
  "trace s1 = trace s @ es \<Longrightarrow> trace s2 = trace s1 @ es1 \<Longrightarrow>
   new_events s s2 = new_events s s1 @ new_events s1 s2"
  by (simp add: new_events_def)

lemma new_events_notify:
  "new_events s (notify n prog s) =
       (if destr_fn (destr_fn_info s) = NULL then []
        else if TlsGetValue (key_for_destr_fn_arg (destr_fn_info s)) s = NULL
        then [TlsSet (key_for_destr_fn_arg (destr_fn_info s)) NULL]
        else [TlsSet (key_for_destr_fn_arg (destr_fn_info s)) NULL,
              Invoke (destr_fn (destr_fn_info s))
                (TlsGetValue (key_for_destr_fn_arg (destr_fn_info s)) s)])"
  by (rule new_events_append) (simp only: notify_eq trace_on_process_term)

lemma trace_notify_ex: "\<exists>es. trace (notify n prog s) = trace s @ es"
  by (simp only: notify_eq trace_on_process_term) blast

lemma slots_TlsSetValue:
  "k \<noteq> TLS_OUT_OF_INDEXES \<Longrightarrow> slots (TlsSetValue k v s) = (slots s)(k := v)"
  by (simp add: TlsSetValue_def)

lemma TlsGetValue_TlsSetValue:
  "TlsGetValue k (TlsSetValue k v s) = (if k = TLS_OUT_OF_INDEXES then NULL else v)"
  by (simp add: TlsGetValue_def TlsSetValue_def)

lemma leaves_slot_release_only: "leaves_slot release_only f k"
  by (simp add: leaves_slot_def release_only_def)

text \<open>A destructor bound to the index of a failed \<open>TlsAlloc\<close> is never called.\<close>

lemma notify_invalid_key:
  "key_for_destr_fn_arg (destr_fn_info s) = TLS_OUT_OF_INDEXES \<Longrightarrow>
   invocations (new_events s (notify n prog s)) = []"
  by (simp add: new_events_notify TlsGetValue_def)

text \<open>
  Claim C1, as the code has it. When a destructor \<open>f\<close> is registered for slot \<open>k\<close>
  and the slot holds a non-null value \<open>v\<close>, a run of an exit notifier calls the
  destructor exactly once, with \<open>v\<close> as its argument, and the destructor starts on
  the slots of the thread with slot \<open>k\<close> cleared. What the slot holds once the
  notifier has returned is what the destructor left there: it is null whenever the
  destructor does not itself store into the slot.
\<close>

theorem notifier_runs_destructor_once:
  assumes "destr_fn (destr_fn_info s) = f" and "f \<noteq> NULL"
    and "key_for_destr_fn_arg (destr_fn_info s) = k"
    and "TlsGetValue k s = v" and "v \<noteq> NULL"
  shows "invocations (new_events s (notify n prog s)) = [(f, v)] \<and>
         slots (notify n prog s) = prog f v ((slots s)(k := NULL)) \<and>
         (leaves_slot prog f k \<longrightarrow> TlsGetValue k (notify n prog s) = NULL)"
proof -
  have ev: "invocations (new_events s (notify n prog s)) = [(f, v)]"
    using assms by (simp add: new_events_notify)
  have sl: "slots (notify n prog s) = prog f v ((slots s)(k := NULL))"
    using assms by (simp add: notify_eq slots_on_process_term)
  have "TlsGetValue k (notify n prog s) = NULL" if "leaves_slot prog f k"
    using that sl by (simp add: TlsGetValue_def leaves_slot_def)
  with ev sl show ?thesis by blast
qed

theorem notifier_runs_destructor_once_witness:
  "destr_fn (destr_fn_info thread_with_value) = 1 \<and> (1::nat) \<noteq> NULL \<and>
   key_for_destr_fn_arg (destr_fn_info thread_with_value) = 5 \<and>
   TlsGetValue 5 thread_with_value = 7 \<and> (7::nat) \<noteq> NULL \<and>
   leaves_slot release_only 1 5 \<and>
   invocations (new_events thread_with_value (notify ThreadExit release_only thread_with_value)) =
     [(1, 7)] \<and>
   TlsGetValue 5 (notify ThreadExit release_only thread_with_value) = NULL"
proof -
  have a: "destr_fn (destr_fn_info thread_with_value) = 1"
    and b: "key_for_destr_fn_arg (destr_fn_info thread_with_value) = 5"
    and c: "TlsGetValue 5 thread_with_value = 7"
    by (simp_all add: thread_with_value_def TlsGetValue_def TLS_OUT_OF_INDEXES_def)
  have d: "(1::nat) \<noteq> NULL" and e: "(7::nat) \<noteq> NULL"
    by simp_all
  from notifier_runs_destructor_once [OF a d b c e, of ThreadExit release_only] a b c
    leaves_slot_release_only [of 1 5]
  show ?thesis by simp
qed

text \<open>
  Claim C1 as stated fails: the slot is not always empty after the notifier. The
  thread's slot 5 holds 7 and the registered destructor stores its argument back
  into the slot. The thread-exit notifier calls it once with 7, and afterwards
  the slot holds 7 again.
\<close>

theorem rearming_destructor_refills_slot:
  "destr_fn (destr_fn_info thread_with_value) = 1 \<and>
   key_for_destr_fn_arg (destr_fn_info thread_with_value) = 5 \<and>
   TlsGetValue 5 thread_with_value = 7 \<and>
   invocations (new_events thread_with_value (notify ThreadExit (rearm 5) thread_with_value)) =
     [(1, 7)] \<and>
   TlsGetValue 5 (notify ThreadExit (rearm 5) thread_with_value) = 7"
proof -
  have before: "destr_fn (destr_fn_info thread_with_value) = 1 \<and>
      key_for_destr_fn_arg (destr_fn_info thread_with_value) = 5 \<and>
      TlsGetValue 5 thread_with_value = 7"
    by (simp add: thread_with_value_def TlsGetValue_def TLS_OUT_OF_INDEXES_def)
  have once: "invocations (new_events thread_with_value
      (notify ThreadExit (rearm 5) thread_with_value)) = [(1, 7)]"
    using before by (simp add: new_events_notify)
  have after: "TlsGetValue 5 (notify ThreadExit (rearm 5) thread_with_value) = 7"
    using before
    by (simp add: notify_eq slots_on_process_term TlsGetValue_def rearm_def TLS_OUT_OF_INDEXES_def)
  from before once after show ?thesis by simp
qed

text \<open>
  Claim C3. Whenever a run of an exit notifier calls the destructor, the run consists
  of the store of null into the registered slot followed by the call, in this order.
  The destructor called is the registered one, its argument is the value the slot
  held, and it starts on the slots as \<open>TlsSetValue\<close> left them, where a read of
  the registered slot gives null.
\<close>

theorem destructor_enters_with_cleared_slot:
  assumes "Invoke f p \<in> set (new_events s (notify n prog s))"
  shows "new_events s (notify n prog s) =
           [TlsSet (key_for_destr_fn_arg (destr_fn_info s)) NULL, Invoke f p] \<and>
         f = destr_fn (destr_fn_info s) \<and>
         p = TlsGetValue (key_for_destr_fn_arg (destr_fn_info s)) s \<and> p \<noteq> NULL \<and>
         slots (notify n prog s) =
           prog f p (slots (TlsSetValue (key_for_destr_fn_arg (destr_fn_info s)) NULL s)) \<and>
         TlsGetValue (key_for_destr_fn_arg (destr_fn_info s))
           (TlsSetValue (key_for_destr_fn_arg (destr_fn_info s)) NULL s) = NULL"
proof -
  let ?k = "key_for_destr_fn_arg (destr_fn_info s)"
  from assms have reg: "destr_fn (destr_fn_info s) \<noteq> NULL"
    and val: "TlsGetValue ?k s \<noteq> NULL"
    by (auto simp add: new_events_notify split: if_splits)
  from assms reg val have f: "f = destr_fn (destr_fn_info s)"
    and p: "p = TlsGetValue ?k s"
    by (simp_all add: new_events_notify)
  from val have valid: "?k \<noteq> TLS_OUT_OF_INDEXES"
    by (auto simp add: TlsGetValue_def)
  have ev: "new_events s (notify n prog s) = [TlsSet ?k NULL, Invoke f p]"
    using reg val f p by (simp add: new_events_notify)
  have sl: "slots (notify n prog s) = prog f p (slots (TlsSetValue ?k NULL s))"
    using reg val f p by (simp add: notify_eq slots_on_process_term slots_TlsSetValue [OF valid])
  have "TlsGetValue ?k (TlsSetValue ?k NULL s) = NULL"
    by (simp add: TlsGetValue_TlsSetValue)
  with ev sl f p val show ?thesis by blast
qed

theorem destructor_enters_with_cleared_slot_witness:
  "Invoke 1 7 \<in> set (new_events thread_with_value (notify ProcessExit (rearm 5) thread_with_value)) \<and>
   new_events thread_with_value (notify ProcessExit (rearm 5) thread_with_value) =
     [TlsSet 5 NULL, Invoke 1 7] \<and>
   slots (notify ProcessExit (rearm 5) thread_with_value) =
     rearm 5 1 7 (slots (TlsSetValue 5 NULL thread_with_value)) \<and>
   TlsGetValue 5 (TlsSetValue 5 NULL thread_with_value) = NULL"
proof -
  have a: "Invoke 1 7 \<in> set (new_events thread_with_value
      (notify ProcessExit (rearm 5) thread_with_value))"
    by (simp add: new_events_notify TlsGetValue_def thread_with_value_def TLS_OUT_OF_INDEXES_def)
  have b: "key_for_destr_fn_arg (destr_fn_info thread_with_value) = 5"
    by (simp add: thread_with_value_def)
  from destructor_enters_with_cleared_slot [OF a] a show ?thesis
    unfolding b by simp
qed

text \<open>
  Claim C4, as the code has it. For a destructor that does not itself store into the
  registered slot, and for any value in the slot, the thread-exit notifier followed by
  the process-exit notifier calls the destructor at most once; when the first
  notifier has called it, the slot reads null afterwards and the second notifier
  makes no call.
\<close>

theorem exit_notifiers_invoke_at_most_once:
  assumes "leaves_slot prog (destr_fn (destr_fn_info s)) (key_for_destr_fn_arg (destr_fn_info s))"
  shows "length (invocations
           (new_events s (notify ProcessExit prog (notify ThreadExit prog s)))) \<le> 1 \<and>
         (invocations (new_events s (notify ThreadExit prog s)) \<noteq> [] \<longrightarrow>
            TlsGetValue (key_for_destr_fn_arg (destr_fn_info s)) (notify ThreadExit prog s) = NULL \<and>
            invocations (new_events (notify ThreadExit prog s)
                           (notify ProcessExit prog (notify ThreadExit prog s))) = [])"
proof -
  let ?k = "key_for_destr_fn_arg (destr_fn_info s)"
  let ?s1 = "notify ThreadExit prog s"
  let ?s2 = "notify ProcessExit prog ?s1"
  have info: "destr_fn_info ?s1 = destr_fn_info s"
    by (simp only: notify_eq destr_fn_info_on_process_term)
  have cleared: "TlsGetValue ?k ?s1 = NULL" if "destr_fn (destr_fn_info s) \<noteq> NULL"
    using that assms
    by (simp add: notify_eq slots_on_process_term TlsGetValue_def leaves_slot_def)
  have second: "invocations (new_events ?s1 ?s2) = []"
    using cleared by (simp add: new_events_notify info)
  obtain es where es: "trace ?s1 = trace s @ es"
    using trace_notify_ex by blast
  obtain es1 where es1: "trace ?s2 = trace ?s1 @ es1"
    using trace_notify_ex by blast
  have split: "new_events s ?s2 = new_events s ?s1 @ new_events ?s1 ?s2"
    using es es1 by (rule new_events_trans)
  have first: "length (invocations (new_events s ?s1)) \<le> 1"
    by (simp add: new_events_notify)
  have reg: "destr_fn (destr_fn_info s) \<noteq> NULL" if "invocations (new_events s ?s1) \<noteq> []"
    using that by (auto simp add: new_events_notify split: if_splits)
  show ?thesis
    using first second split cleared reg by (simp add: invocations_append)
qed

theorem exit_notifiers_invoke_at_most_once_witness:
  "leaves_slot release_only (destr_fn (destr_fn_info thread_with_value))
     (key_for_destr_fn_arg (destr_fn_info thread_with_value)) \<and>
   invocations (new_events thread_with_value (notify ThreadExit release_only thread_with_value)) =
     [(1, 7)] \<and>
   length (invocations (new_events thread_with_value
     (notify ProcessExit release_only (notify ThreadExit release_only thread_with_value)))) \<le> 1 \<and>
   invocations (new_events (notify ThreadExit release_only thread_with_value)
     (notify ProcessExit release_only (notify ThreadExit release_only thread_with_value))) = []"
proof -
  have a: "leaves_slot release_only (destr_fn (destr_fn_info thread_with_value))
     (key_for_destr_fn_arg (destr_fn_info thread_with_value))"
    by (rule leaves_slot_release_only)
  have b: "invocations (new_events thread_with_value
      (notify ThreadExit release_only thread_with_value)) = [(1, 7)]"
    by (simp add: new_events_notify TlsGetValue_def thread_with_value_def TLS_OUT_OF_INDEXES_def)
  from exit_notifiers_invoke_at_most_once [OF a] a b show ?thesis
    by simp
qed

text \<open>
  Claim C4 as stated fails: with the destructor that stores its argument back into
  the slot, the thread-exit notifier followed by the process-exit notifier calls the
  destructor twice, each time with 7.
\<close>

theorem rearming_destructor_runs_twice:
  "invocations
     (new_events thread_with_value
        (notify ProcessExit (rearm 5) (notify ThreadExit (rearm 5) thread_with_value))) =
   [(1, 7), (1, 7)]"
proof -
  let ?s1 = "notify ThreadExit (rearm 5) thread_with_value"
  have before: "destr_fn (destr_fn_info thread_with_value) = 1 \<and>
      key_for_destr_fn_arg (destr_fn_info thread_with_value) = 5 \<and>
      TlsGetValue 5 thread_with_value = 7"
    by (simp add: thread_with_value_def TlsGetValue_def TLS_OUT_OF_INDEXES_def)
  have between: "destr_fn (destr_fn_info ?s1) = 1 \<and>
      key_for_destr_fn_arg (destr_fn_info ?s1) = 5 \<and> TlsGetValue 5 ?s1 = 7"
    using before
    by (simp add: notify_eq destr_fn_info_on_process_term slots_on_process_term
        TlsGetValue_def rearm_def TLS_OUT_OF_INDEXES_def)
  have first: "trace ?s1 = trace thread_with_value @ [TlsSet 5 NULL, Invoke 1 7]"
    using before by (simp add: notify_eq trace_on_process_term)
  have second: "trace (notify ProcessExit (rearm 5) ?s1) = trace ?s1 @ [TlsSet 5 NULL, Invoke 1 7]"
    using between by (simp add: notify_eq [of ProcessExit] trace_on_process_term)
  have "new_events thread_with_value (notify ProcessExit (rearm 5) ?s1) =
      [TlsSet 5 NULL, Invoke 1 7, TlsSet 5 NULL, Invoke 1 7]"
    by (rule new_events_append) (simp add: first second)
  then show ?thesis by simp
qed

text \<open>
  Claim C5. When no destructor is registered, \<open>on_process_term\<close> returns 0 and
  leaves the state as it is, and so does \<open>on_tls_callback\<close> for every reason. When
  a destructor is registered and the slot reads null, neither notifier calls the
  destructor, and the slots of the thread are as before.
\<close>

theorem exit_notifiers_nothing_to_clean_up:
  "(destr_fn (destr_fn_info s) = NULL \<longrightarrow>
      on_process_term prog s = (0, s) \<and> on_tls_callback prog h dwReason pv s = s) \<and>
   (destr_fn (destr_fn_info s) \<noteq> NULL \<and>
    TlsGetValue (key_for_destr_fn_arg (destr_fn_info s)) s = NULL \<longrightarrow>
      invocations (new_events s (snd (on_process_term prog s))) = [] \<and>
      invocations (new_events s (on_tls_callback prog h dwReason pv s)) = [] \<and>
      slots (snd (on_process_term prog s)) = slots s \<and>
      slots (on_tls_callback prog h dwReason pv s) = slots s)"
proof -
  have a: "on_process_term prog s = (0, s) \<and> on_tls_callback prog h dwReason pv s = s"
    if "destr_fn (destr_fn_info s) = NULL"
    using that by (simp add: on_process_term_def on_tls_callback_def)
  have b: "invocations (new_events s (snd (on_process_term prog s))) = [] \<and>
      invocations (new_events s (on_tls_callback prog h dwReason pv s)) = [] \<and>
      slots (snd (on_process_term prog s)) = slots s \<and>
      slots (on_tls_callback prog h dwReason pv s) = slots s"
    if "destr_fn (destr_fn_info s) \<noteq> NULL"
      and "TlsGetValue (key_for_destr_fn_arg (destr_fn_info s)) s = NULL"
  proof -
    have "new_events s (snd (on_process_term prog s)) =
        [TlsSet (key_for_destr_fn_arg (destr_fn_info s)) NULL]"
      using that new_events_notify [of s ProcessExit prog] by (simp add: notify_eq)
    moreover have "new_events s s = []"
      by (simp add: new_events_def)
    ultimately show ?thesis
      using that by (simp add: on_tls_callback_def slots_on_process_term)
  qed
  from a b show ?thesis by blast
qed

theorem exit_notifiers_nothing_to_clean_up_witness:
  "destr_fn (destr_fn_info (process_start [])) = NULL \<and>
   on_process_term release_only (process_start []) = (0, process_start []) \<and>
   on_tls_callback release_only 0 DLL_THREAD_DETACH 0 (process_start []) = process_start [] \<and>
   destr_fn (destr_fn_info thread_without_value) \<noteq> NULL \<and>
   TlsGetValue (key_for_destr_fn_arg (destr_fn_info thread_without_value)) thread_without_value = NULL \<and>
   invocations (new_events thread_without_value
     (snd (on_process_term release_only thread_without_value))) = [] \<and>
   invocations (new_events thread_without_value
     (on_tls_callback release_only 0 DLL_THREAD_DETACH 0 thread_without_value)) = []"
proof -
  have a: "destr_fn (destr_fn_info (process_start [])) = NULL"
    by (simp add: process_start_def)
  have b: "destr_fn (destr_fn_info thread_without_value) \<noteq> NULL"
    and c: "TlsGetValue (key_for_destr_fn_arg (destr_fn_info thread_without_value))
      thread_without_value = NULL"
    by (simp_all add: thread_without_value_def TlsGetValue_def)
  from exit_notifiers_nothing_to_clean_up [of "process_start []" release_only 0 DLL_THREAD_DETACH 0]
    exit_notifiers_nothing_to_clean_up [of thread_without_value release_only 0 DLL_THREAD_DETACH 0]
    a b c
  show ?thesis by simp
qed

text \<open>
  Claim C10. Called with any reason other than \<open>DLL_THREAD_DETACH\<close>,
  \<open>on_tls_callback\<close> returns the state it was given: no destructor call is added to
  the trace, and \<open>destr_fn_info\<close> and every slot are as before.
\<close>

theorem on_tls_callback_other_reason:
  "dwReason \<noteq> DLL_THREAD_DETACH \<Longrightarrow> on_tls_callback prog h dwReason pv s = s"
  by (simp add: on_tls_callback_def)

theorem on_tls_callback_other_reason_witness:
  "DLL_THREAD_ATTACH \<noteq> DLL_THREAD_DETACH \<and> DLL_PROCESS_ATTACH \<noteq> DLL_THREAD_DETACH \<and>
   on_tls_callback (rearm 5) 0 DLL_THREAD_ATTACH 0 thread_with_value = thread_with_value \<and>
   on_tls_callback (rearm 5) 0 DLL_PROCESS_ATTACH 0 thread_with_value = thread_with_value"
proof -
  have a: "DLL_THREAD_ATTACH \<noteq> DLL_THREAD_DETACH"
    by (simp add: DLL_THREAD_ATTACH_def DLL_THREAD_DETACH_def)
  have b: "DLL_PROCESS_ATTACH \<noteq> DLL_THREAD_DETACH"
    by (simp add: DLL_PROCESS_ATTACH_def DLL_THREAD_DETACH_def)
  show ?thesis
    using a b on_tls_callback_other_reason [OF a] on_tls_callback_other_reason [OF b] by simp
qed

section \<open>Key creation\<close>

lemma destr_fn_info_TlsAlloc: "destr_fn_info (snd (TlsAlloc s)) = destr_fn_info s"
  by (simp add: TlsAlloc_def split: list.splits)

lemma PthreadKeyCreate_eq:
  "PthreadKeyCreate fn s =
     (if fn = NULL then Inr (TlsAlloc s)
      else if destr_fn (destr_fn_info s) = NULL
      then Inr (fst (TlsAlloc s),
                (snd (TlsAlloc s))\<lparr>destr_fn_info :=
                   \<lparr>destr_fn = fn, key_for_destr_fn_arg = fst (TlsAlloc s)\<rparr>\<rparr>)
      else Inl (AssertionFailed ''destr_fn_info.destr_fn == NULL''))"
  using destr_fn_info_TlsAlloc [of s]
  by (cases "TlsAlloc s") (simp add: PthreadKeyCreate_def)

lemma PthreadKeyCreate_registered:
  "destr_fn (destr_fn_info s) \<noteq> NULL \<Longrightarrow> fn \<noteq> NULL \<Longrightarrow>
   PthreadKeyCreate fn s = Inl (AssertionFailed ''destr_fn_info.destr_fn == NULL'')"
  by (simp add: PthreadKeyCreate_eq)

lemma PthreadKeyCreate_keeps_registered:
  "PthreadKeyCreate fn s = Inr (k, s1) \<Longrightarrow>
   fn \<noteq> NULL \<or> destr_fn (destr_fn_info s) \<noteq> NULL \<Longrightarrow>
   destr_fn (destr_fn_info s1) \<noteq> NULL"
  using destr_fn_info_TlsAlloc [of s]
  by (auto simp add: PthreadKeyCreate_eq split: if_splits)

lemma PthreadKeyCreate_calls_keeps_registered:
  "PthreadKeyCreate_calls fns s = Inr (ks, s1) \<Longrightarrow>
   (\<exists>fn\<in>set fns. fn \<noteq> NULL) \<or> destr_fn (destr_fn_info s) \<noteq> NULL \<Longrightarrow>
   destr_fn (destr_fn_info s1) \<noteq> NULL"
proof (induction fns arbitrary: s ks)
  case Nil
  then show ?case by simp
next
  case (Cons fn fns)
  from Cons.prems(1) obtain k s2 ks2 where
    one: "PthreadKeyCreate fn s = Inr (k, s2)" and
    rest: "PthreadKeyCreate_calls fns s2 = Inr (ks2, s1)"
    by (auto split: sum.splits prod.splits)
  show ?case
  proof (cases "fn \<noteq> NULL \<or> destr_fn (destr_fn_info s) \<noteq> NULL")
    case True
    with one have "destr_fn (destr_fn_info s2) \<noteq> NULL"
      by (rule PthreadKeyCreate_keeps_registered)
    with rest show ?thesis
      using Cons.IH by blast
  next
    case False
    with Cons.prems(2) have "\<exists>fn\<in>set fns. fn \<noteq> NULL"
      by auto
    with rest show ?thesis
      using Cons.IH by blast
  qed
qed

text \<open>Each call takes the first index of the pool, or finds the pool empty.\<close>

lemma PthreadKeyCreate_pool:
  "PthreadKeyCreate fn s = Inr (k, s1) \<Longrightarrow>
   (tls_pool s = [] \<and> k = TLS_OUT_OF_INDEXES \<and> tls_pool s1 = []) \<or> tls_pool s = k # tls_pool s1"
  by (auto simp add: PthreadKeyCreate_eq TlsAlloc_def split: if_splits list.splits)

lemma PthreadKeyCreate_calls_pool:
  "PthreadKeyCreate_calls fns s = Inr (ks, s1) \<Longrightarrow>
   \<exists>given. tls_pool s = given @ tls_pool s1 \<and> set ks \<subseteq> set given \<union> {TLS_OUT_OF_INDEXES}"
proof (induction fns arbitrary: s ks)
  case Nil
  then show ?case by simp
next
  case (Cons fn fns)
  from Cons.prems obtain k s2 ks2 where
    one: "PthreadKeyCreate fn s = Inr (k, s2)" and
    rest: "PthreadKeyCreate_calls fns s2 = Inr (ks2, s1)" and
    ks: "ks = k # ks2"
    by (auto split: sum.splits prod.splits)
  from Cons.IH [OF rest] obtain given where
    given: "tls_pool s2 = given @ tls_pool s1" "set ks2 \<subseteq> set given \<union> {TLS_OUT_OF_INDEXES}"
    by blast
  from PthreadKeyCreate_pool [OF one] show ?case
  proof
    assume "tls_pool s = [] \<and> k = TLS_OUT_OF_INDEXES \<and> tls_pool s2 = []"
    with given ks show ?thesis by auto
  next
    assume "tls_pool s = k # tls_pool s2"
    with given ks have "tls_pool s = (k # given) @ tls_pool s1 \<and>
        set ks \<subseteq> set (k # given) \<union> {TLS_OUT_OF_INDEXES}"
      by auto
    then show ?thesis by blast
  qed
qed

text \<open>
  A sequence of calls ends the process exactly when it holds a non-null destructor
  after one is registered: from a state without a destructor, when two or more of
  its calls supply one.
\<close>

lemma PthreadKeyCreate_calls_fatal_iff:
  "(\<exists>e. PthreadKeyCreate_calls fns s = Inl e) \<longleftrightarrow>
   (if destr_fn (destr_fn_info s) \<noteq> NULL then \<exists>fn\<in>set fns. fn \<noteq> NULL
    else 2 \<le> length (filter (\<lambda>fn. fn \<noteq> NULL) fns))"
proof (induction fns arbitrary: s)
  case Nil
  then show ?case by simp
next
  case (Cons fn fns)
  show ?case
  proof (cases "PthreadKeyCreate fn s")
    case (Inl e)
    then have "fn \<noteq> NULL \<and> destr_fn (destr_fn_info s) \<noteq> NULL"
      by (auto simp add: PthreadKeyCreate_eq split: if_splits)
    with Inl show ?thesis by simp
  next
    case (Inr r)
    obtain k s1 where r: "r = (k, s1)" by (cases r)
    have info: "destr_fn (destr_fn_info s1) \<noteq> NULL \<longleftrightarrow>
        fn \<noteq> NULL \<or> destr_fn (destr_fn_info s) \<noteq> NULL"
      using Inr r destr_fn_info_TlsAlloc [of s]
      by (auto simp add: PthreadKeyCreate_eq split: if_splits)
    have ok: "\<not> (fn \<noteq> NULL \<and> destr_fn (destr_fn_info s) \<noteq> NULL)"
      using Inr PthreadKeyCreate_registered [of s fn] by auto
    have "(\<exists>e. PthreadKeyCreate_calls (fn # fns) s = Inl e) \<longleftrightarrow>
          (\<exists>e. PthreadKeyCreate_calls fns s1 = Inl e)"
      using Inr r by (auto split: sum.splits prod.splits)
    also have "\<dots> \<longleftrightarrow> (if destr_fn (destr_fn_info s1) \<noteq> NULL then \<exists>fn\<in>set fns. fn \<noteq> NULL
        else 2 \<le> length (filter (\<lambda>fn. fn \<noteq> NULL) fns))"
      by (rule Cons.IH)
    also have "\<dots> \<longleftrightarrow> (if destr_fn (destr_fn_info s) \<noteq> NULL
        then \<exists>fn\<in>set (fn # fns). fn \<noteq> NULL
        else 2 \<le> length (filter (\<lambda>fn. fn \<noteq> NULL) (fn # fns)))"
      using info ok by (auto simp add: filter_empty_conv Suc_le_eq length_greater_0_conv)
    finally show ?thesis .
  qed
qed

text \<open>
  Claim C2, as the code has it. Take any sequence of \<open>PthreadKeyCreate\<close> calls made
  from process start that has returned and in which some call supplied a non-null
  destructor. In the state it leaves, every call with a non-null destructor ends
  the process with the failed assertion, so the binding is not overwritten. A call
  with a null destructor returns and leaves \<open>destr_fn_info\<close> as it is. As long as
  the platform has an index left, the index it returns is one that no earlier call
  returned; once no index is left, it returns \<open>TLS_OUT_OF_INDEXES\<close> and changes
  nothing.
\<close>

theorem PthreadKeyCreate_after_registration:
  assumes run: "PthreadKeyCreate_calls fns (process_start pool) = Inr (ks, s)"
    and reg: "\<exists>fn\<in>set fns. fn \<noteq> NULL"
    and pool: "distinct pool" "TLS_OUT_OF_INDEXES \<notin> set pool"
  shows "(\<forall>fn. fn \<noteq> NULL \<longrightarrow>
            PthreadKeyCreate fn s = Inl (AssertionFailed ''destr_fn_info.destr_fn == NULL'')) \<and>
         (\<exists>k s1. PthreadKeyCreate NULL s = Inr (k, s1) \<and>
            destr_fn_info s1 = destr_fn_info s \<and>
            (tls_pool s \<noteq> [] \<longrightarrow> k \<notin> set ks \<and> k \<noteq> TLS_OUT_OF_INDEXES) \<and>
            (tls_pool s = [] \<longrightarrow> k = TLS_OUT_OF_INDEXES \<and> s1 = s))"
proof -
  have registered: "destr_fn (destr_fn_info s) \<noteq> NULL"
    using run reg by (rule PthreadKeyCreate_calls_keeps_registered [OF _ disjI1])
  then have fatal: "\<forall>fn. fn \<noteq> NULL \<longrightarrow>
      PthreadKeyCreate fn s = Inl (AssertionFailed ''destr_fn_info.destr_fn == NULL'')"
    by (simp add: PthreadKeyCreate_registered)
  obtain k s1 where alloc: "TlsAlloc s = (k, s1)"
    by (cases "TlsAlloc s")
  then have create: "PthreadKeyCreate NULL s = Inr (k, s1)"
    by (simp add: PthreadKeyCreate_eq)
  have info: "destr_fn_info s1 = destr_fn_info s"
    using destr_fn_info_TlsAlloc [of s] alloc by simp
  have fresh: "k \<notin> set ks \<and> k \<noteq> TLS_OUT_OF_INDEXES" if "tls_pool s \<noteq> []"
  proof -
    from PthreadKeyCreate_calls_pool [OF run] obtain given where
      given: "pool = given @ tls_pool s" "set ks \<subseteq> set given \<union> {TLS_OUT_OF_INDEXES}"
      by (auto simp add: process_start_def)
    from that alloc have k: "k = hd (tls_pool s)" "k \<in> set (tls_pool s)"
      by (auto simp add: TlsAlloc_def split: list.splits)
    from k given pool have "k \<notin> set given" "k \<noteq> TLS_OUT_OF_INDEXES"
      by auto
    with given show ?thesis by auto
  qed
  have exhausted: "k = TLS_OUT_OF_INDEXES \<and> s1 = s" if "tls_pool s = []"
    using that alloc by (simp add: TlsAlloc_def)
  from fatal create info fresh exhausted show ?thesis by blast
qed

theorem PthreadKeyCreate_after_registration_witness:
  "PthreadKeyCreate_calls [0, 3, 0] (process_start [1, 2, 3, 4]) =
     Inr ([1, 2, 3],
          \<lparr>destr_fn_info = \<lparr>destr_fn = 3, key_for_destr_fn_arg = 2\<rparr>,
           slots = (\<lambda>_. NULL)(1 := NULL, 2 := NULL, 3 := NULL), tls_pool = [4], trace = []\<rparr>) \<and>
   (\<exists>fn\<in>set [0, 3, 0::nat]. fn \<noteq> NULL) \<and> distinct [1, 2, 3, 4::32 word] \<and>
   TLS_OUT_OF_INDEXES \<notin> set [1, 2, 3, 4] \<and>
   PthreadKeyCreate 9
     \<lparr>destr_fn_info = \<lparr>destr_fn = 3, key_for_destr_fn_arg = 2\<rparr>,
      slots = (\<lambda>_. NULL)(1 := NULL, 2 := NULL, 3 := NULL), tls_pool = [4], trace = []\<rparr> =
     Inl (AssertionFailed ''destr_fn_info.destr_fn == NULL'') \<and>
   (\<exists>s1. PthreadKeyCreate NULL
     \<lparr>destr_fn_info = \<lparr>destr_fn = 3, key_for_destr_fn_arg = 2\<rparr>,
      slots = (\<lambda>_. NULL)(1 := NULL, 2 := NULL, 3 := NULL), tls_pool = [4], trace = []\<rparr> =
       Inr (4, s1) \<and> destr_fn_info s1 = \<lparr>destr_fn = 3, key_for_destr_fn_arg = 2\<rparr>) \<and>
   (4::32 word) \<notin> set [1, 2, 3]"
proof -
  let ?s = "\<lparr>destr_fn_info = \<lparr>destr_fn = 3, key_for_destr_fn_arg = 2\<rparr>,
      slots = (\<lambda>_. NULL)(1 := NULL, 2 := NULL, 3 := NULL), tls_pool = [4::32 word], trace = []\<rparr>"
  have run: "PthreadKeyCreate_calls [0, 3, 0] (process_start [1, 2, 3, 4]) = Inr ([1, 2, 3], ?s)"
    by (simp add: PthreadKeyCreate_def TlsAlloc_def process_start_def)
  have reg: "\<exists>fn\<in>set [0, 3, 0::nat]. fn \<noteq> NULL"
    by simp
  have d: "distinct [1, 2, 3, 4::32 word]"
    by simp
  have o: "TLS_OUT_OF_INDEXES \<notin> set [1, 2, 3, 4]"
    by (simp add: TLS_OUT_OF_INDEXES_def)
  have k: "PthreadKeyCreate NULL ?s = Inr (4, snd (TlsAlloc ?s))"
    by (simp add: PthreadKeyCreate_def TlsAlloc_def)
  from PthreadKeyCreate_after_registration [OF run reg d o] run reg d o k
  show ?thesis
    by auto
qed

text \<open>
  Claim C2 as stated fails: a later call with a null destructor does not always
  return a fresh handle. The platform has the single index 1. The first call
  registers the destructor at address 3 and takes index 1; the second call, with a
  null destructor, finds no index left and returns \<open>TLS_OUT_OF_INDEXES\<close>. A further
  call with a null destructor returns \<open>TLS_OUT_OF_INDEXES\<close> again, the handle the
  second call has already returned.
\<close>

theorem PthreadKeyCreate_repeats_failed_index:
  "(\<exists>fn\<in>set [3, 0::nat]. fn \<noteq> NULL) \<and> distinct [1::32 word] \<and>
   TLS_OUT_OF_INDEXES \<notin> set [1] \<and>
   PthreadKeyCreate_calls [3, 0] (process_start [1]) =
     Inr ([1, TLS_OUT_OF_INDEXES],
          \<lparr>destr_fn_info = \<lparr>destr_fn = 3, key_for_destr_fn_arg = 1\<rparr>,
           slots = (\<lambda>_. NULL)(1 := NULL), tls_pool = [], trace = []\<rparr>) \<and>
   PthreadKeyCreate NULL
     \<lparr>destr_fn_info = \<lparr>destr_fn = 3, key_for_destr_fn_arg = 1\<rparr>,
      slots = (\<lambda>_. NULL)(1 := NULL), tls_pool = [], trace = []\<rparr> =
     Inr (TLS_OUT_OF_INDEXES,
          \<lparr>destr_fn_info = \<lparr>destr_fn = 3, key_for_destr_fn_arg = 1\<rparr>,
           slots = (\<lambda>_. NULL)(1 := NULL), tls_pool = [], trace = []\<rparr>) \<and>
   TLS_OUT_OF_INDEXES \<in> set [1, TLS_OUT_OF_INDEXES]"
proof -
  have hyps: "(\<exists>fn\<in>set [3, 0::nat]. fn \<noteq> NULL) \<and> distinct [1::32 word] \<and>
      TLS_OUT_OF_INDEXES \<notin> set [1]"
    by (simp add: TLS_OUT_OF_INDEXES_def)
  have run: "PthreadKeyCreate_calls [3, 0] (process_start [1]) =
     Inr ([1, TLS_OUT_OF_INDEXES],
          \<lparr>destr_fn_info = \<lparr>destr_fn = 3, key_for_destr_fn_arg = 1\<rparr>,
           slots = (\<lambda>_. NULL)(1 := NULL), tls_pool = [], trace = []\<rparr>)"
    by (simp add: PthreadKeyCreate_def TlsAlloc_def process_start_def)
  have again: "PthreadKeyCreate NULL
     \<lparr>destr_fn_info = \<lparr>destr_fn = 3, key_for_destr_fn_arg = 1\<rparr>,
      slots = (\<lambda>_. NULL)(1 := NULL), tls_pool = [], trace = []\<rparr> =
     Inr (TLS_OUT_OF_INDEXES,
          \<lparr>destr_fn_info = \<lparr>destr_fn = 3, key_for_destr_fn_arg = 1\<rparr>,
           slots = (\<lambda>_. NULL)(1 := NULL), tls_pool = [], trace = []\<rparr>)"
    by (simp add: PthreadKeyCreate_def TlsAlloc_def)
  from hyps run again show ?thesis by simp
qed

text \<open>
  Claim C6, as the code has it. \<open>PthreadKeyCreate\<close> returns the index that
  \<open>TlsAlloc\<close> returned and does not look at it. When the platform has no index left,
  a call with a null destructor returns \<open>TLS_OUT_OF_INDEXES\<close> and changes nothing, a
  call with the first non-null destructor returns \<open>TLS_OUT_OF_INDEXES\<close> and binds the
  destructor to it, and only a call with a further non-null destructor ends the
  process, through the assertion on the binding.
\<close>

theorem PthreadKeyCreate_returns_TlsAlloc_result:
  "(\<forall>k s1. PthreadKeyCreate fn s = Inr (k, s1) \<longrightarrow> k = fst (TlsAlloc s)) \<and>
   (tls_pool s = [] \<longrightarrow>
      PthreadKeyCreate fn s =
        (if fn = NULL then Inr (TLS_OUT_OF_INDEXES, s)
         else if destr_fn (destr_fn_info s) = NULL
         then Inr (TLS_OUT_OF_INDEXES,
                   s\<lparr>destr_fn_info :=
                      \<lparr>destr_fn = fn, key_for_destr_fn_arg = TLS_OUT_OF_INDEXES\<rparr>\<rparr>)
         else Inl (AssertionFailed ''destr_fn_info.destr_fn == NULL'')))"
proof -
  have a: "k = fst (TlsAlloc s)" if "PthreadKeyCreate fn s = Inr (k, s1)" for k s1
    using that by (cases "TlsAlloc s") (auto simp add: PthreadKeyCreate_eq split: if_splits)
  have b: "TlsAlloc s = (TLS_OUT_OF_INDEXES, s)" if "tls_pool s = []"
    using that by (simp add: TlsAlloc_def)
  show ?thesis
    using a b by (simp add: PthreadKeyCreate_eq)
qed

theorem PthreadKeyCreate_returns_TlsAlloc_result_witness:
  "tls_pool (process_start []) = [] \<and>
   PthreadKeyCreate 3 (process_start []) =
     Inr (TLS_OUT_OF_INDEXES,
          (process_start [])\<lparr>destr_fn_info :=
             \<lparr>destr_fn = 3, key_for_destr_fn_arg = TLS_OUT_OF_INDEXES\<rparr>\<rparr>) \<and>
   tls_pool ((process_start [])\<lparr>destr_fn_info := \<lparr>destr_fn = 2, key_for_destr_fn_arg = 5\<rparr>\<rparr>) = [] \<and>
   PthreadKeyCreate 1
     ((process_start [])\<lparr>destr_fn_info := \<lparr>destr_fn = 2, key_for_destr_fn_arg = 5\<rparr>\<rparr>) =
     Inl (AssertionFailed ''destr_fn_info.destr_fn == NULL'') \<and>
   PthreadKeyCreate NULL (process_start [7]) = Inr (7, snd (TlsAlloc (process_start [7]))) \<and>
   fst (TlsAlloc (process_start [7])) = 7"
proof -
  have e0: "tls_pool (process_start []) = []"
    by (simp add: process_start_def)
  have r0: "destr_fn (destr_fn_info (process_start [])) = NULL"
    by (simp add: process_start_def)
  have e: "tls_pool ((process_start [])\<lparr>destr_fn_info :=
      \<lparr>destr_fn = 2, key_for_destr_fn_arg = 5\<rparr>\<rparr>) = []"
    by (simp add: process_start_def)
  have c: "PthreadKeyCreate NULL (process_start [7]) = Inr (7, snd (TlsAlloc (process_start [7])))"
    by (simp add: PthreadKeyCreate_def TlsAlloc_def process_start_def)
  from PthreadKeyCreate_returns_TlsAlloc_result [of 3 "process_start []"]
    PthreadKeyCreate_returns_TlsAlloc_result
    [of 1 "(process_start [])\<lparr>destr_fn_info := \<lparr>destr_fn = 2, key_for_destr_fn_arg = 5\<rparr>\<rparr>"]
    PthreadKeyCreate_returns_TlsAlloc_result [of NULL "process_start [7]"] e0 r0 e c
  show ?thesis
    by simp
qed

text \<open>
  Claim C6 as stated fails: at process start with no index left, \<open>PthreadKeyCreate\<close>
  returns \<open>TLS_OUT_OF_INDEXES\<close> as its result, without and with a destructor, and
  no fatal condition is raised.
\<close>

theorem PthreadKeyCreate_exhausted:
  "PthreadKeyCreate NULL (process_start []) = Inr (TLS_OUT_OF_INDEXES, process_start []) \<and>
   PthreadKeyCreate 1 (process_start []) =
     Inr (TLS_OUT_OF_INDEXES,
          (process_start [])\<lparr>destr_fn_info :=
             \<lparr>destr_fn = 1, key_for_destr_fn_arg = TLS_OUT_OF_INDEXES\<rparr>\<rparr>)"
  by (simp add: PthreadKeyCreate_def TlsAlloc_def process_start_def)

section \<open>The basic libraries\<close>

text \<open>
  Claim C7. For every increment, and whatever has been written to the error stream
  before, \<open>__sbrk\<close> ends the process with the diagnostic
  \<open>Windows doesn't implement sbrk!\<close>; no call returns a value.
\<close>

theorem sbrk_always_fatal:
  "sbrk increment err = Inl (LogFatal sbrk_message) \<and> (\<forall>r. sbrk increment err \<noteq> Inr r)"
  by (simp add: sbrk_def LOG_def)

lemma power_of_two_sizeD: "power_of_two_size w \<Longrightarrow> \<exists>n<31. w = 2 ^ n"
  by (auto simp add: power_of_two_size_def)

lemma sint_power_of_two:
  assumes "n < 31"
  shows "sint ((2::32 word) ^ n) = 2 ^ n"
proof -
  have lt: "(2::int) ^ n < 2 ^ 31"
    using assms power_strict_increasing [of n 31 "2::int"] by simp
  have "(2::32 word) ^ n = word_of_int (2 ^ n)"
    by simp
  then have "sint ((2::32 word) ^ n) = signed_take_bit (LENGTH(32) - 1) ((2::int) ^ n)"
    by (simp only: sint_sbintrunc')
  also have "\<dots> = signed_take_bit 31 ((2::int) ^ n)"
    by simp
  also have "\<dots> = 2 ^ n"
  proof (rule signed_take_bit_int_eq_self)
    have "- (2 ^ 31) \<le> (0::int)" by simp
    also have "(0::int) \<le> 2 ^ n" by simp
    finally show "- (2 ^ 31) \<le> (2::int) ^ n" .
    show "(2::int) ^ n < 2 ^ 31" by (rule lt)
  qed
  finally show ?thesis .
qed

lemma uint_power_of_two:
  assumes "n < 31"
  shows "uint ((2::32 word) ^ n) = 2 ^ n"
proof -
  have lt: "(2::int) ^ n < 2 ^ 32"
    using assms power_strict_increasing [of n 32 "2::int"] by simp
  have "(2::32 word) ^ n = word_of_int (2 ^ n)"
    by simp
  then have "uint ((2::32 word) ^ n) = take_bit 32 ((2::int) ^ n)"
    by (simp only: uint_word_of_int_eq) simp
  also have "\<dots> = 2 ^ n"
    using lt by (intro take_bit_int_eq_self) simp_all
  finally show ?thesis .
qed

text \<open>Once the static holds a non-zero value, every call returns it and keeps it.\<close>

lemma getpagesize_calls_memo:
  "r \<noteq> 0 \<Longrightarrow> getpagesize_calls sis r = replicate (length sis) r"
  by (induction sis) (simp_all add: getpagesize_def)

lemma sint_max_power_of_two:
  assumes "power_of_two_size a" and "power_of_two_size b"
  shows "sint (max a b) = uint (max a b) \<and> (\<exists>n<31. max a b = 2 ^ n)"
proof -
  from assms have "power_of_two_size (max a b)"
    by (simp add: max_def)
  then obtain n where n: "n < 31" "max a b = 2 ^ n"
    using power_of_two_sizeD by blast
  then show ?thesis
    by (auto simp add: sint_power_of_two uint_power_of_two)
qed

text \<open>
  Claim C8. The platform reports a page size and an allocation granularity that are
  powers of two and fit into an \<open>int\<close>. Then the first call of \<open>getpagesize\<close> in a
  process and every later call return one and the same value, whatever the platform
  would report later; the value is positive, a power of two, and no smaller than
  the reported allocation granularity and page size.
\<close>

theorem getpagesize_same_value_every_call:
  assumes "power_of_two_size (dwPageSize si)"
    and "power_of_two_size (dwAllocationGranularity si)"
  shows "getpagesize_calls (si # sis) 0 = replicate (Suc (length sis)) (fst (getpagesize si 0)) \<and>
         0 < fst (getpagesize si 0) \<and>
         (\<exists>n. fst (getpagesize si 0) = 2 ^ n) \<and>
         uint (dwAllocationGranularity si) \<le> fst (getpagesize si 0) \<and>
         uint (dwPageSize si) \<le> fst (getpagesize si 0)"
proof -
  let ?m = "max (dwPageSize si) (dwAllocationGranularity si)"
  have r: "fst (getpagesize si 0) = sint ?m"
    by (simp add: getpagesize_def Let_def)
  from sint_max_power_of_two [OF assms] obtain n where
    su: "sint ?m = uint ?m" and n: "n < 31" "?m = 2 ^ n"
    by blast
  have val: "sint ?m = 2 ^ n"
    using n by (simp add: sint_power_of_two)
  then have pos: "0 < sint ?m"
    by simp
  have calls: "getpagesize_calls (si # sis) 0 = replicate (Suc (length sis)) (sint ?m)"
    using pos getpagesize_calls_memo [of "sint ?m" sis]
    by (simp add: getpagesize_def Let_def)
  have "dwAllocationGranularity si \<le> ?m" "dwPageSize si \<le> ?m"
    by simp_all
  then have ge: "uint (dwAllocationGranularity si) \<le> sint ?m" "uint (dwPageSize si) \<le> sint ?m"
    unfolding su by (simp_all only: word_le_def)
  from calls pos val ge show ?thesis
    unfolding r by blast
qed

theorem getpagesize_same_value_every_call_witness:
  "power_of_two_size 4096 \<and> power_of_two_size 65536 \<and>
   getpagesize_calls
     [\<lparr>dwPageSize = 4096, dwAllocationGranularity = 65536\<rparr>,
      \<lparr>dwPageSize = 4096, dwAllocationGranularity = 65536\<rparr>,
      \<lparr>dwPageSize = 8192, dwAllocationGranularity = 8192\<rparr>] 0 = [65536, 65536, 65536] \<and>
   uint (65536 :: 32 word) \<le> 65536"
proof -
  have a: "power_of_two_size (dwPageSize \<lparr>dwPageSize = 4096, dwAllocationGranularity = 65536\<rparr>)"
    unfolding power_of_two_size_def by code_simp
  have b: "power_of_two_size
      (dwAllocationGranularity \<lparr>dwPageSize = 4096, dwAllocationGranularity = 65536\<rparr>)"
    unfolding power_of_two_size_def by code_simp
  have v: "fst (getpagesize \<lparr>dwPageSize = 4096, dwAllocationGranularity = 65536\<rparr> 0) = 65536"
    by (simp add: getpagesize_def)
  from getpagesize_same_value_every_call [OF a b,
      of "[\<lparr>dwPageSize = 4096, dwAllocationGranularity = 65536\<rparr>,
           \<lparr>dwPageSize = 8192, dwAllocationGranularity = 8192\<rparr>]"] a b
  show ?thesis
    unfolding v by (simp add: numeral_3_eq_3)
qed

section \<open>Deleting old profiles\<close>

lemma resolve_cwd: "cwd fs1 = cwd fs \<Longrightarrow> resolve fs1 p = resolve fs p"
  by (simp add: resolve_def)

lemma cwd_delete_found: "cwd (delete_found prefix n names fs) = cwd fs"
  by (induction names arbitrary: fs) (simp_all add: unlink_def RAW_VLOG_def)

text \<open>
  The loop removes the files that the found names with the prefix resolve to, which
  are files of the current directory, and no other file.
\<close>

lemma files_delete_found:
  "files (delete_found prefix n names fs) =
     filter (\<lambda>e. e \<notin> resolve fs ` {fname \<in> set names. n \<le> length fname \<and> take n fname = take n prefix})
       (files fs)"
proof (induction names arbitrary: fs)
  case Nil
  then show ?case by simp
next
  case (Cons fname rest)
  let ?hit = "n \<le> length fname \<and> take n fname = take n prefix"
  let ?fs1 = "if ?hit
       then unlink fname (RAW_VLOG 0 (''Removing old heap profile '' @ fname @ [CHR 0x0A]) fs)
       else fs"
  have c: "cwd ?fs1 = cwd fs"
    by (simp add: unlink_def RAW_VLOG_def)
  have r: "resolve ?fs1 = resolve fs"
    using resolve_cwd [OF c] by blast
  have f: "files ?fs1 = (if ?hit then filter (\<lambda>e. e \<noteq> resolve fs fname) (files fs) else files fs)"
    by (simp add: unlink_def RAW_VLOG_def resolve_def)
  have "files (delete_found prefix n (fname # rest) fs) = files (delete_found prefix n rest ?fs1)"
    by simp
  also have "\<dots> =
      filter (\<lambda>e. e \<notin> resolve fs ` {fname \<in> set rest. n \<le> length fname \<and> take n fname = take n prefix})
        (files ?fs1)"
    unfolding Cons.IH r ..
  also have "\<dots> =
      filter (\<lambda>e. e \<notin> resolve fs ` {x \<in> set (fname # rest). n \<le> length x \<and> take n x = take n prefix})
        (files fs)"
    unfolding f by (auto intro!: filter_cong)
  finally show ?case .
qed

text \<open>One line is logged for each found name with the prefix, in the order found.\<close>

lemma vlog_delete_found:
  "vlog (delete_found prefix n names fs) =
     vlog fs @ map (\<lambda>fname. ''Removing old heap profile '' @ fname @ [CHR 0x0A])
       (filter (\<lambda>fname. n \<le> length fname \<and> take n fname = take n prefix) names)"
  by (induction names arbitrary: fs) (simp_all add: unlink_def RAW_VLOG_def)

lemma DeleteMatchingFiles_delete_found:
  "DeleteMatchingFiles prefix full_glob fs =
     delete_found prefix (length prefix) (FindFiles full_glob fs) fs"
  by (simp add: DeleteMatchingFiles_def split: list.splits)

text \<open>The test of line 215 and 216 says that the name starts with the prefix.\<close>

lemma starts_with_prefix:
  "length prefix \<le> length fname \<and> take (length prefix) fname = take (length prefix) prefix \<longleftrightarrow>
   prefix = take (length prefix) fname"
  by (metis order_refl take_all length_take min.absorb2 nat_le_linear)

text \<open>
  When the glob names no directory, so that the entries found are those of the
  current directory, the files deleted are exactly the files of that directory
  that match the glob and start with the prefix.
\<close>

lemma DeleteMatchingFiles_in_cwd:
  assumes glob: "\<not> has_dir full_glob"
    and names: "\<forall>e\<in>set (files fs). \<not> has_dir (snd e)"
  shows "files (DeleteMatchingFiles prefix full_glob fs) =
     filter (\<lambda>e. \<not> (fst e = cwd fs \<and> wild full_glob (snd e) \<and>
                     prefix = take (length prefix) (snd e)))
       (files fs)"
proof -
  have found: "FindFiles full_glob fs =
      map snd (filter (\<lambda>e. fst e = cwd fs \<and> wild full_glob (snd e)) (files fs))"
    using glob by (simp add: FindFiles_def resolve_def)
  have res: "resolve fs (snd e) = e" if "e \<in> set (files fs)" "fst e = cwd fs" for e
  proof -
    from that(1) names have "\<not> has_dir (snd e)"
      by blast
    then have "resolve fs (snd e) = (cwd fs, snd e)"
      by (simp add: resolve_def)
    with that(2) show ?thesis
      by (simp add: prod_eq_iff)
  qed
  show ?thesis
    unfolding DeleteMatchingFiles_delete_found files_delete_found found starts_with_prefix
  proof (rule filter_cong [OF refl])
    fix e
    assume e: "e \<in> set (files fs)"
    let ?hits = "{fname \<in> set (map snd (filter (\<lambda>e. fst e = cwd fs \<and> wild full_glob (snd e)) (files fs))).
        prefix = take (length prefix) fname}"
    show "(e \<notin> resolve fs ` ?hits) =
        (\<not> (fst e = cwd fs \<and> wild full_glob (snd e) \<and> prefix = take (length prefix) (snd e)))"
    proof
      assume out: "e \<notin> resolve fs ` ?hits"
      show "\<not> (fst e = cwd fs \<and> wild full_glob (snd e) \<and> prefix = take (length prefix) (snd e))"
      proof
        assume h: "fst e = cwd fs \<and> wild full_glob (snd e) \<and> prefix = take (length prefix) (snd e)"
        with e have "snd e \<in> ?hits" by auto
        then have "resolve fs (snd e) \<in> resolve fs ` ?hits" by (rule imageI)
        with res [OF e] h out show False by simp
      qed
    next
      assume no: "\<not> (fst e = cwd fs \<and> wild full_glob (snd e) \<and> prefix = take (length prefix) (snd e))"
      show "e \<notin> resolve fs ` ?hits"
      proof
        assume "e \<in> resolve fs ` ?hits"
        then obtain d where d: "d \<in> set (files fs)" "fst d = cwd fs" "wild full_glob (snd d)"
          "prefix = take (length prefix) (snd d)" "e = resolve fs (snd d)"
          by auto
        with res [of d] have "e = d" by simp
        with d no show False by simp
      qed
    qed
  qed
qed

text \<open>The example of the spec, run in the directory that holds the profiles.\<close>

lemma DeleteMatchingFiles_spec_example:
  "files (DeleteMatchingFiles ''profile.'' ''profile.*.tmp''
     \<lparr>cwd = ''C:/work'',
      files = [(''C:/work'', ''profile.1.tmp''), (''C:/work'', ''profile.2.tmp''),
               (''C:/work'', ''other.tmp'')],
      vlog = []\<rparr>) = [(''C:/work'', ''other.tmp'')]"
  by (simp add: DeleteMatchingFiles_def FindFiles_def resolve_def has_dir_def is_sep_def
      unlink_def RAW_VLOG_def)

text \<open>
  Claim C9 at an input where the code departs from it. The glob names the directory
  \<open>C:/tmp\<close>, the process runs in \<open>C:/work\<close>, and both hold a file
  \<open>profile.1\<close>. The entry found is the one in \<open>C:/tmp\<close>; the code logs its
  removal and unlinks the bare name, so the file that goes is the one in \<open>C:/work\<close>,
  which the glob does not match, and the matching file in \<open>C:/tmp\<close> stays. Line 218
  of the source notes that directory and name together are what should be unlinked.
\<close>

theorem DeleteMatchingFiles_other_directory:
  "FindFiles ''C:/tmp/profile.*'' profiles_elsewhere = [''profile.1''] \<and>
   files (DeleteMatchingFiles ''profile.'' ''C:/tmp/profile.*'' profiles_elsewhere) =
     [(''C:/tmp'', ''profile.1'')] \<and>
   vlog (DeleteMatchingFiles ''profile.'' ''C:/tmp/profile.*'' profiles_elsewhere) =
     [''Removing old heap profile profile.1'' @ [CHR 0x0A]]"
  by (simp add: DeleteMatchingFiles_def FindFiles_def resolve_def has_dir_def is_sep_def
      dir_name_def base_name_def unlink_def RAW_VLOG_def profiles_elsewhere_def)

end
